theory Spec2Isabelle
  imports Main "HOL-Library.Sublist"
begin

section \<open>The gRPC service host of \<^verbatim>\<open>grpc_core/servers/manager.py\<close>\<close>

text \<open>
  The class \<^verbatim>\<open>Server\<close> is glue around library objects: it creates one
  \<^verbatim>\<open>grpc.aio\<close> server, binds a port, enables reflection, registers four servicers,
  starts and stops the server. The model keeps the objects of the class itself (the
  class attribute \<^verbatim>\<open>_instance\<close>, the instance attributes) as explicit state, and
  records every call the class makes to a library as an entry of a trace, in program
  order. Whether a library call returns or raises is not decided by this repository:
  it is a parameter of every operation (the environment).
\<close>

subsection \<open>Data\<close>

text \<open>
  The fully qualified service names. The source reads them from the generated
  descriptors (\<^verbatim>\<open>order_pb2.DESCRIPTOR.services_by_name["OrderService"].full_name\<close>
  and so on) and from \<^verbatim>\<open>reflection.SERVICE_NAME\<close>; the generated registration
  function \<^verbatim>\<open>add_OrderServiceServicer_to_server\<close> binds a servicer under the name of
  the same descriptor. The descriptors are not among the sources, so each name is a
  constructor that stands for the full name of that service.
\<close>

datatype service =
    OrderService
  | EchoService
  | Health
  | CheckStatusOrderService
  | ServerReflection

text \<open>
  The interceptors of a server: the one the class builds from the configured secret, and
  the tracing interceptor of the OpenTelemetry instrumentation (see \<open>instrument_server\<close>
  below).
\<close>

datatype interceptor = AuthInterceptor string | OpenTelemetryAioServerInterceptor

text \<open>
  The two log lines of the class (their text is Russian in the source): the start
  line carries \<^verbatim>\<open>SERVER_ADDRESS\<close>, the stop line carries nothing.
\<close>

datatype message = ServiceStarted string | ServiceStopped

type_synonym ref = nat
type_synonym srv = nat

text \<open>
  One constructor for each library call of the class, with the arguments the source
  passes. \<open>AioServer s n is\<close> is the creation of the server object \<open>s\<close> by
  \<^verbatim>\<open>aio.server(ThreadPoolExecutor(max_workers=n), interceptors=...)\<close>, where \<open>is\<close> is the
  interceptor chain the server is created with; \<open>AddServicer n s\<close> is the
  generated \<^verbatim>\<open>add_<n>Servicer_to_server(<implementation>(), s)\<close>;
  \<open>ServerStop s g\<close> is \<^verbatim>\<open>s.stop(grace=g)\<close>; \<open>CreateTaskRun r\<close> is
  \<^verbatim>\<open>asyncio.create_task(r.run())\<close> of \<^verbatim>\<open>main.py\<close>.
\<close>

datatype call =
    JaegerExporter string bool
  | BatchSpanProcessor
  | TracerProvider string
  | SetTracerProvider
  | AddSpanProcessor
  | InstrumentServer
  | InstrumentClient
  | AioServer srv nat "interceptor list"
  | AddInsecurePort srv string
  | EnableServerReflection "service list" srv
  | AddServicer service srv
  | CreateTable bool
  | ServerStart srv
  | LoggerInfo message
  | WaitForTermination srv
  | ServerStop srv bool
  | CreateTaskRun ref

datatype error = AttributeError string | Raised string

text \<open>The environment: which library calls raise, and what.\<close>

type_synonym env = "call \<Rightarrow> error option"

text \<open>
  The module \<^verbatim>\<open>settings\<close> is not among the sources; its values are parameters. Each
  field is the text that the f-strings of the source render for it.
\<close>

record settings =
  JAEGER_HOST :: string
  JAEGER_PORT :: string
  GRPC_HOST_LOCAL :: string
  GRPC_PORT :: string
  SECRET_KEY :: string

text \<open>
  A \<^verbatim>\<open>Server\<close> object: an attribute is \<open>None\<close> until the source assigns it
  (\<^verbatim>\<open>hasattr\<close> is false).
\<close>

record server_obj =
  SERVER_ADDRESS :: "string option"
  server :: "srv option"
  initialized :: "bool option"

text \<open>
  The process: the class attribute \<^verbatim>\<open>Server._instance\<close>, the \<^verbatim>\<open>Server\<close> objects
  allocated so far, the counters that give fresh object identities, whether
  \<^verbatim>\<open>grpc.aio.server\<close> has been replaced by the instrumentation, and the library calls
  that have returned, oldest first.
\<close>

record process =
  Server_instance :: "ref option"
  heap :: "ref \<Rightarrow> server_obj option"
  next_ref :: nat
  next_srv :: nat
  aio_instrumented :: bool
  trace :: "call list"

definition fresh_process :: process where
  "fresh_process =
     \<lparr>Server_instance = None, heap = (\<lambda>_. None), next_ref = 0, next_srv = 0,
      aio_instrumented = False, trace = []\<rparr>"

definition no_attributes :: server_obj where
  "no_attributes = \<lparr>SERVER_ADDRESS = None, server = None, initialized = None\<rparr>"

subsection \<open>Sequencing, library calls, attributes\<close>

definition and_then ::
  "(process \<Rightarrow> (error + 'a) \<times> process) \<Rightarrow> ('a \<Rightarrow> process \<Rightarrow> (error + 'b) \<times> process)
     \<Rightarrow> process \<Rightarrow> (error + 'b) \<times> process" where
  "and_then m f p = (case m p of (Inl e, p') \<Rightarrow> (Inl e, p') | (Inr x, p') \<Rightarrow> f x p')"

definition ext :: "env \<Rightarrow> call \<Rightarrow> process \<Rightarrow> (error + unit) \<times> process" where
  "ext env c p =
     (case env c of
        Some e \<Rightarrow> (Inl e, p)
      | None \<Rightarrow> (Inr (), p\<lparr>trace := trace p @ [c]\<rparr>))"

text \<open>
  \<^verbatim>\<open>GrpcAioInstrumentorServer().instrument()\<close> replaces the module attribute
  \<^verbatim>\<open>grpc.aio.server\<close> by a wrapper. The wrapper inserts the tracing interceptor at index 0
  of the \<^verbatim>\<open>interceptors\<close> argument and then calls the original function. Instrumenting a
  second time changes nothing more.
\<close>

definition instrument_server :: "env \<Rightarrow> process \<Rightarrow> (error + unit) \<times> process" where
  "instrument_server env p =
     (case ext env InstrumentServer p of
        (Inl e, p') \<Rightarrow> (Inl e, p')
      | (Inr _, p') \<Rightarrow> (Inr (), p'\<lparr>aio_instrumented := True\<rparr>))"

text \<open>
  \<^verbatim>\<open>aio.server(...)\<close> returns a new server object. The source looks \<^verbatim>\<open>server\<close> up in
  the module \<^verbatim>\<open>grpc.aio\<close> when it calls it, so after \<^verbatim>\<open>instrument()\<close> the call goes
  through the wrapper.
\<close>

definition aio_server :: "env \<Rightarrow> nat \<Rightarrow> interceptor list \<Rightarrow> process \<Rightarrow> (error + srv) \<times> process" where
  "aio_server env workers is p =
     (let s = next_srv p;
          chain = (if aio_instrumented p then OpenTelemetryAioServerInterceptor # is else is) in
      case ext env (AioServer s workers chain) p of
        (Inl e, p') \<Rightarrow> (Inl e, p')
      | (Inr _, p') \<Rightarrow> (Inr s, p'\<lparr>next_srv := Suc s\<rparr>))"

definition hasattr_initialized :: "ref \<Rightarrow> process \<Rightarrow> bool" where
  "hasattr_initialized self p =
     (case heap p self of None \<Rightarrow> False | Some obj \<Rightarrow> initialized obj \<noteq> None)"

definition setattr :: "ref \<Rightarrow> (server_obj \<Rightarrow> server_obj) \<Rightarrow> process \<Rightarrow> (error + unit) \<times> process" where
  "setattr self f p =
     (case heap p self of
        None \<Rightarrow> (Inl (AttributeError ''self''), p)
      | Some obj \<Rightarrow> (Inr (), p\<lparr>heap := (heap p)(self := Some (f obj))\<rparr>))"

definition getattr_server :: "ref \<Rightarrow> process \<Rightarrow> (error + srv) \<times> process" where
  "getattr_server self p =
     (case heap p self of
        None \<Rightarrow> (Inl (AttributeError ''self''), p)
      | Some obj \<Rightarrow>
          (case server obj of
             None \<Rightarrow> (Inl (AttributeError ''server''), p)
           | Some s \<Rightarrow> (Inr s, p)))"

definition getattr_SERVER_ADDRESS :: "ref \<Rightarrow> process \<Rightarrow> (error + string) \<times> process" where
  "getattr_SERVER_ADDRESS self p =
     (case heap p self of
        None \<Rightarrow> (Inl (AttributeError ''self''), p)
      | Some obj \<Rightarrow>
          (case SERVER_ADDRESS obj of
             None \<Rightarrow> (Inl (AttributeError ''SERVER_ADDRESS''), p)
           | Some a \<Rightarrow> (Inr a, p)))"

subsection \<open>The class \<^verbatim>\<open>Server\<close>\<close>

text \<open>
  \<^verbatim>\<open>__new__\<close>: a \<^verbatim>\<open>Server\<close> object is truthy, so \<^verbatim>\<open>not cls._instance\<close> holds exactly
  when the slot is \<^verbatim>\<open>None\<close>.
\<close>

definition Server_new :: "process \<Rightarrow> ref \<times> process" where
  "Server_new p =
     (case Server_instance p of
        Some r \<Rightarrow> (r, p)
      | None \<Rightarrow>
          (let r = next_ref p in
           (r, p\<lparr>Server_instance := Some r,
                 heap := (heap p)(r := Some no_attributes),
                 next_ref := Suc r\<rparr>)))"

definition SERVICE_NAMES :: "service list" where
  "SERVICE_NAMES =
     [OrderService, EchoService, Health, CheckStatusOrderService, ServerReflection]"

definition Server_init_body :: "env \<Rightarrow> settings \<Rightarrow> ref \<Rightarrow> process \<Rightarrow> (error + unit) \<times> process" where
  "Server_init_body env cfg self =
     and_then (ext env (JaegerExporter (JAEGER_HOST cfg @ '':'' @ JAEGER_PORT cfg) True)) (\<lambda>_.
     and_then (ext env BatchSpanProcessor) (\<lambda>_.
     and_then (ext env (TracerProvider ''Order'')) (\<lambda>_.
     and_then (ext env SetTracerProvider) (\<lambda>_.
     and_then (ext env AddSpanProcessor) (\<lambda>_.
     and_then (instrument_server env) (\<lambda>_.
     and_then (ext env InstrumentClient) (\<lambda>_.
     and_then (setattr self
         (\<lambda>obj. obj\<lparr>SERVER_ADDRESS := Some (GRPC_HOST_LOCAL cfg @ '':'' @ GRPC_PORT cfg)\<rparr>)) (\<lambda>_.
     and_then (aio_server env 10 [AuthInterceptor (SECRET_KEY cfg)]) (\<lambda>s.
     and_then (setattr self (\<lambda>obj. obj\<lparr>server := Some s\<rparr>)) (\<lambda>_.
     and_then (getattr_server self) (\<lambda>s.
     and_then (getattr_SERVER_ADDRESS self) (\<lambda>a.
     and_then (ext env (AddInsecurePort s a)) (\<lambda>_.
     and_then (getattr_server self) (\<lambda>s.
     and_then (ext env (EnableServerReflection SERVICE_NAMES s)) (\<lambda>_.
     setattr self (\<lambda>obj. obj\<lparr>initialized := Some True\<rparr>))))))))))))))))"

text \<open>\<^verbatim>\<open>__init__\<close>: the body runs only while the object has no attribute \<^verbatim>\<open>initialized\<close>.\<close>

definition Server_init :: "env \<Rightarrow> settings \<Rightarrow> ref \<Rightarrow> process \<Rightarrow> (error + unit) \<times> process" where
  "Server_init env cfg self p =
     (if hasattr_initialized self p then (Inr (), p) else Server_init_body env cfg self p)"

text \<open>\<^verbatim>\<open>Server()\<close>: \<^verbatim>\<open>__new__\<close>, then \<^verbatim>\<open>__init__\<close> on the object it returned.\<close>

definition Server_call :: "env \<Rightarrow> settings \<Rightarrow> process \<Rightarrow> (error + ref) \<times> process" where
  "Server_call env cfg p =
     (case Server_new p of
        (r, p1) \<Rightarrow>
          (case Server_init env cfg r p1 of
             (Inl e, p2) \<Rightarrow> (Inl e, p2)
           | (Inr _, p2) \<Rightarrow> (Inr r, p2)))"

definition register :: "env \<Rightarrow> ref \<Rightarrow> process \<Rightarrow> (error + unit) \<times> process" where
  "register env self =
     and_then (getattr_server self) (\<lambda>s.
     and_then (ext env (AddServicer OrderService s)) (\<lambda>_.
     and_then (getattr_server self) (\<lambda>s.
     and_then (ext env (AddServicer EchoService s)) (\<lambda>_.
     and_then (getattr_server self) (\<lambda>s.
     and_then (ext env (AddServicer Health s)) (\<lambda>_.
     and_then (getattr_server self) (\<lambda>s.
     ext env (AddServicer CheckStatusOrderService s))))))))"

text \<open>
  \<^verbatim>\<open>run\<close> and \<^verbatim>\<open>stop\<close> are coroutines. Each is modelled as the sequence of its own
  steps; \<^verbatim>\<open>wait_for_termination\<close> returns when the server has terminated, or raises
  (cancellation of the task), as the environment says.
\<close>

definition run :: "env \<Rightarrow> ref \<Rightarrow> process \<Rightarrow> (error + unit) \<times> process" where
  "run env self =
     and_then (ext env (CreateTable True)) (\<lambda>_.
     and_then (register env self) (\<lambda>_.
     and_then (getattr_server self) (\<lambda>s.
     and_then (ext env (ServerStart s)) (\<lambda>_.
     and_then (getattr_SERVER_ADDRESS self) (\<lambda>a.
     and_then (ext env (LoggerInfo (ServiceStarted a))) (\<lambda>_.
     and_then (getattr_server self) (\<lambda>s.
     ext env (WaitForTermination s))))))))"

definition stop :: "env \<Rightarrow> ref \<Rightarrow> process \<Rightarrow> (error + unit) \<times> process" where
  "stop env self =
     and_then (ext env (LoggerInfo ServiceStopped)) (\<lambda>_.
     and_then (getattr_server self) (\<lambda>s.
     ext env (ServerStop s False)))"

text \<open>
  \<^verbatim>\<open>lifespan\<close> of \<^verbatim>\<open>main.py\<close>, up to its \<^verbatim>\<open>yield\<close>: the application starts
  only when this part returns.
\<close>

definition lifespan_startup :: "env \<Rightarrow> settings \<Rightarrow> process \<Rightarrow> (error + ref) \<times> process" where
  "lifespan_startup env cfg =
     and_then (Server_call env cfg) (\<lambda>server.
     and_then (ext env (CreateTaskRun server)) (\<lambda>_ p.
     (Inr server, p)))"

text \<open>Several \<^verbatim>\<open>Server()\<close> calls in one process, each under its own environment.\<close>

fun constructions :: "settings \<Rightarrow> env list \<Rightarrow> process \<Rightarrow> (error + ref) list \<times> process" where
  "constructions cfg [] p = ([], p)"
| "constructions cfg (env # envs) p =
     (case Server_call env cfg p of
        (x, p1) \<Rightarrow>
          (case constructions cfg envs p1 of
             (xs, p2) \<Rightarrow> (x # xs, p2)))"

subsection \<open>Running an interceptor chain\<close>

text \<open>
  Modelled from the spec: how a server runs its interceptor chain on an inbound call is
  library code, not among the sources. Section 9 of the specification: the chain is an
  ordered list of interceptors, each with the one capability
  \<^verbatim>\<open>intercept(call, next)\<close>, composed by function composition: the first interceptor
  gets the call, and a later stage (in the end the handler) gets it only when the stage
  before passes it on. Whether an interceptor passes a given call on is a parameter
  (\<open>passes\<close>): the code of the interceptors is not among the sources either.
  \<open>dispatch\<close> gives the interceptors that were invoked, in order, and whether the handler
  was reached.
\<close>

fun dispatch :: "(interceptor \<Rightarrow> 'rpc \<Rightarrow> bool) \<Rightarrow> interceptor list \<Rightarrow> 'rpc
    \<Rightarrow> interceptor list \<times> bool" where
  "dispatch passes [] rpc = ([], True)"
| "dispatch passes (i # is) rpc =
     (if passes i rpc
      then (case dispatch passes is rpc of (js, reached) \<Rightarrow> (i # js, reached))
      else ([i], False))"

subsection \<open>Reading a trace\<close>

text \<open>The services bound by registration calls, oldest first.\<close>

fun registered :: "call list \<Rightarrow> service list" where
  "registered [] = []"
| "registered (AddServicer n s # cs) = n # registered cs"
| "registered (c # cs) = registered cs"

text \<open>The name tuples passed to \<^verbatim>\<open>enable_server_reflection\<close>, oldest first.\<close>

fun reflected :: "call list \<Rightarrow> service list list" where
  "reflected [] = []"
| "reflected (EnableServerReflection ns s # cs) = ns # reflected cs"
| "reflected (c # cs) = reflected cs"

text \<open>The servers created, with pool size and interceptor chain; the ports bound; the servers started.\<close>

fun created_servers :: "call list \<Rightarrow> (srv \<times> nat \<times> interceptor list) list" where
  "created_servers [] = []"
| "created_servers (AioServer s n is # cs) = (s, n, is) # created_servers cs"
| "created_servers (c # cs) = created_servers cs"

fun bound_ports :: "call list \<Rightarrow> (srv \<times> string) list" where
  "bound_ports [] = []"
| "bound_ports (AddInsecurePort s a # cs) = (s, a) # bound_ports cs"
| "bound_ports (c # cs) = bound_ports cs"

fun started :: "call list \<Rightarrow> srv list" where
  "started [] = []"
| "started (ServerStart s # cs) = s # started cs"
| "started (c # cs) = started cs"

fun stop_requests :: "call list \<Rightarrow> (srv \<times> bool) list" where
  "stop_requests [] = []"
| "stop_requests (ServerStop s g # cs) = (s, g) # stop_requests cs"
| "stop_requests (c # cs) = stop_requests cs"

fun is_reflection :: "call \<Rightarrow> bool" where
  "is_reflection (EnableServerReflection ns s) = True"
| "is_reflection c = False"

fun is_start :: "call \<Rightarrow> bool" where
  "is_start (ServerStart s) = True"
| "is_start c = False"

text \<open>The part of a trace before reflection is enabled, and before a server starts.\<close>

definition before_reflection :: "call list \<Rightarrow> call list" where
  "before_reflection tr = takeWhile (\<lambda>c. \<not> is_reflection c) tr"

definition before_start :: "call list \<Rightarrow> call list" where
  "before_start tr = takeWhile (\<lambda>c. \<not> is_start c) tr"

subsection \<open>The calls of each method, in program order\<close>

definition init_calls :: "settings \<Rightarrow> srv \<Rightarrow> call list" where
  "init_calls cfg s =
     [JaegerExporter (JAEGER_HOST cfg @ '':'' @ JAEGER_PORT cfg) True,
      BatchSpanProcessor,
      TracerProvider ''Order'',
      SetTracerProvider,
      AddSpanProcessor,
      InstrumentServer,
      InstrumentClient,
      AioServer s 10 [OpenTelemetryAioServerInterceptor, AuthInterceptor (SECRET_KEY cfg)],
      AddInsecurePort s (GRPC_HOST_LOCAL cfg @ '':'' @ GRPC_PORT cfg),
      EnableServerReflection SERVICE_NAMES s]"

definition register_calls :: "srv \<Rightarrow> call list" where
  "register_calls s =
     [AddServicer OrderService s,
      AddServicer EchoService s,
      AddServicer Health s,
      AddServicer CheckStatusOrderService s]"

definition run_calls :: "srv \<Rightarrow> string \<Rightarrow> call list" where
  "run_calls s a =
     CreateTable True # register_calls s @
     [ServerStart s, LoggerInfo (ServiceStarted a), WaitForTermination s]"

definition stop_calls :: "srv \<Rightarrow> call list" where
  "stop_calls s = [LoggerInfo ServiceStopped, ServerStop s False]"

subsection \<open>Concrete environments and settings\<close>

definition no_failures :: env where
  "no_failures = (\<lambda>c. None)"

text \<open>The configured address is taken: binding it raises, every other call returns.\<close>

definition address_in_use :: env where
  "address_in_use =
     (\<lambda>c. case c of
        AddInsecurePort s a \<Rightarrow> Some (Raised ''Failed to bind to address'')
      | _ \<Rightarrow> None)"

definition example_settings :: settings where
  "example_settings =
     \<lparr>JAEGER_HOST = ''jaeger'', JAEGER_PORT = ''4317'',
      GRPC_HOST_LOCAL = ''127.0.0.1'', GRPC_PORT = ''50099'',
      SECRET_KEY = ''s3cr3t''\<rparr>"

text \<open>
  What holds of the process after any number of \<^verbatim>\<open>Server()\<close> calls: either nothing
  was constructed yet, or the one object is in the slot, and reflection has been enabled
  exactly when that object carries \<^verbatim>\<open>initialized\<close>.
\<close>

definition singleton_inv :: "process \<Rightarrow> bool" where
  "singleton_inv p =
     (case Server_instance p of
        None \<Rightarrow> next_ref p = 0 \<and> reflected (trace p) = []
      | Some r \<Rightarrow>
          r = 0 \<and> next_ref p = 1 \<and> heap p 0 \<noteq> None \<and>
          reflected (trace p) = (if hasattr_initialized 0 p then [SERVICE_NAMES] else []))"

section \<open>Effects of the methods\<close>

lemmas step_defs = and_then_def ext_def instrument_server_def aio_server_def setattr_def
  getattr_server_def
  getattr_SERVER_ADDRESS_def Let_def

lemma registered_append: "registered (xs @ ys) = registered xs @ registered ys"
  by (induction xs rule: registered.induct) simp_all

lemma reflected_append: "reflected (xs @ ys) = reflected xs @ reflected ys"
  by (induction xs rule: reflected.induct) simp_all

lemma created_servers_append:
  "created_servers (xs @ ys) = created_servers xs @ created_servers ys"
  by (induction xs rule: created_servers.induct) simp_all




text \<open>
  The body of \<^verbatim>\<open>__init__\<close> on an existing object: the calls that returned are an
  initial part of the calls of the body, in program order; the body returns only after
  all of them, and then the three attributes are set; it raises what the first refused
  call raises, and then \<^verbatim>\<open>initialized\<close> is as before.
\<close>

lemma init_body_effect:
  assumes "heap p self = Some obj" and "Server_init_body env cfg self p = (res, p')"
  shows "Server_instance p' = Server_instance p \<and> next_ref p' = next_ref p \<and>
    (\<exists>tl obj'. trace p' = trace p @ tl \<and> prefix tl (init_calls cfg (next_srv p)) \<and>
       (\<forall>c\<in>set tl. env c = None) \<and> heap p' self = Some obj' \<and>
       (\<forall>r. r \<noteq> self \<longrightarrow> heap p' r = heap p r) \<and>
       (case res of
          Inr u \<Rightarrow> tl = init_calls cfg (next_srv p) \<and> next_srv p' = Suc (next_srv p) \<and>
            obj' = obj\<lparr>SERVER_ADDRESS := Some (GRPC_HOST_LOCAL cfg @ '':'' @ GRPC_PORT cfg),
                       server := Some (next_srv p), initialized := Some True\<rparr>
        | Inl e \<Rightarrow> initialized obj' = initialized obj \<and> length tl < 10 \<and>
            env (init_calls cfg (next_srv p) ! length tl) = Some e))"
  using assms
  by (auto simp: Server_init_body_def step_defs init_calls_def
      split: option.splits prod.splits sum.splits if_splits)

lemma register_effect:
  assumes "register env self p = (res, p')"
  shows "Server_instance p' = Server_instance p \<and> heap p' = heap p \<and>
    next_ref p' = next_ref p \<and> next_srv p' = next_srv p \<and>
    (case res of
       Inr u \<Rightarrow> (\<exists>obj s. heap p self = Some obj \<and> server obj = Some s \<and>
                  trace p' = trace p @ register_calls s)
     | Inl e \<Rightarrow> (\<forall>obj s. heap p self = Some obj \<and> server obj = Some s \<longrightarrow>
                  (\<exists>tl. trace p' = trace p @ tl \<and> strict_prefix tl (register_calls s))))"
  using assms
  by (auto simp: register_def step_defs register_calls_def
      split: option.splits prod.splits sum.splits if_splits)

lemma run_effect:
  assumes "run env self p = (res, p')"
  shows "Server_instance p' = Server_instance p \<and> heap p' = heap p \<and>
    next_ref p' = next_ref p \<and> next_srv p' = next_srv p \<and>
    (\<forall>obj s a. heap p self = Some obj \<and> server obj = Some s \<and> SERVER_ADDRESS obj = Some a \<longrightarrow>
       (\<exists>tl. trace p' = trace p @ tl \<and> prefix tl (run_calls s a) \<and>
          (res = Inr () \<longleftrightarrow> tl = run_calls s a)))"
  using assms
  by (auto simp: run_def register_def step_defs register_calls_def run_calls_def
      split: option.splits prod.splits sum.splits if_splits)

lemma stop_effect:
  assumes "stop env self p = (res, p')"
  shows "Server_instance p' = Server_instance p \<and> heap p' = heap p \<and>
    next_ref p' = next_ref p \<and> next_srv p' = next_srv p \<and>
    (\<forall>obj s. heap p self = Some obj \<and> server obj = Some s \<longrightarrow>
       (\<exists>tl. trace p' = trace p @ tl \<and> prefix tl (stop_calls s) \<and>
          (res = Inr () \<longleftrightarrow> tl = stop_calls s)))"
  using assms
  by (auto simp: stop_def step_defs stop_calls_def
      split: option.splits prod.splits sum.splits if_splits)

text \<open>The first \<^verbatim>\<open>Server()\<close> of a process.\<close>

lemma Server_call_fresh:
  assumes "Server_call env cfg fresh_process = (res, p')"
  shows "Server_instance p' = Some 0 \<and> next_ref p' = 1 \<and>
    prefix (trace p') (init_calls cfg 0) \<and> (\<forall>c\<in>set (trace p'). env c = None) \<and>
    (\<forall>r. r \<noteq> 0 \<longrightarrow> heap p' r = None) \<and>
    (case res of
       Inr r \<Rightarrow> r = 0 \<and> trace p' = init_calls cfg 0 \<and> next_srv p' = 1 \<and>
         heap p' 0 = Some \<lparr>SERVER_ADDRESS = Some (GRPC_HOST_LOCAL cfg @ '':'' @ GRPC_PORT cfg),
                            server = Some 0, initialized = Some True\<rparr>
     | Inl e \<Rightarrow> (\<exists>obj. heap p' 0 = Some obj \<and> initialized obj = None) \<and>
         length (trace p') < 10 \<and> env (init_calls cfg 0 ! length (trace p')) = Some e)"
proof -
  let ?p1 = "fresh_process\<lparr>Server_instance := Some 0,
      heap := (heap fresh_process)(0 := Some no_attributes), next_ref := Suc 0\<rparr>"
  have new: "Server_new fresh_process = (0, ?p1)"
    by (simp add: Server_new_def fresh_process_def)
  have h: "heap ?p1 0 = Some no_attributes" by simp
  have ni: "\<not> hasattr_initialized 0 ?p1"
    by (simp add: hasattr_initialized_def no_attributes_def)
  obtain r2 p2 where body: "Server_init_body env cfg 0 ?p1 = (r2, p2)"
    by (cases "Server_init_body env cfg 0 ?p1")
  from assms new ni body have res: "res = (case r2 of Inl e \<Rightarrow> Inl e | Inr u \<Rightarrow> Inr 0)" and p': "p' = p2"
    by (auto simp: Server_call_def Server_init_def split: sum.splits)
  from init_body_effect [OF h body] p' res show ?thesis
    by (cases r2) (auto simp: fresh_process_def no_attributes_def)
qed

text \<open>The first \<^verbatim>\<open>Server()\<close> of a process in which no library call raises.\<close>

lemma Server_call_no_failures:
  "\<exists>p. Server_call no_failures example_settings fresh_process = (Inr 0, p) \<and>
     trace p = init_calls example_settings 0 \<and>
     heap p 0 = Some \<lparr>SERVER_ADDRESS = Some ''127.0.0.1:50099'', server = Some 0,
                        initialized = Some True\<rparr>"
  by (simp add: Server_call_def Server_new_def Server_init_def Server_init_body_def
      hasattr_initialized_def step_defs fresh_process_def no_attributes_def no_failures_def
      init_calls_def example_settings_def)

section \<open>Registration\<close>

text \<open>
  C1, as the specification states it: \<^verbatim>\<open>register()\<close> called twice in a row leaves no
  duplicated binding for any service name. The method has no guard: in a process where
  no call raises, after \<^verbatim>\<open>Server()\<close> and two calls of \<^verbatim>\<open>register()\<close> the bindings made
  on the server are not distinct.
\<close>

theorem register_twice_duplicates:
  "\<not> distinct (registered (trace (snd (register no_failures 0 (snd (register no_failures 0
      (snd (Server_call no_failures example_settings fresh_process))))))))"
proof -
  obtain p where p: "Server_call no_failures example_settings fresh_process = (Inr 0, p)"
    and h: "heap p 0 = Some \<lparr>SERVER_ADDRESS = Some ''127.0.0.1:50099'', server = Some 0,
                        initialized = Some True\<rparr>"
    using Server_call_no_failures by blast
  have "\<not> distinct (registered (trace (snd (register no_failures 0
      (snd (register no_failures 0 p))))))"
    using h by (simp add: register_def step_defs no_failures_def registered_append)
  then show ?thesis
    by (simp add: p)
qed

text \<open>
  C1, amended: two calls of \<^verbatim>\<open>register()\<close> in a row that both return leave the same
  set of bound service names as the first call alone, and each call makes one more
  binding for each of the four services, in the order Order, Echo, Health,
  CheckStatusOrder, on the server of the host.
\<close>

theorem register_twice:
  assumes "register env1 self p = (Inr (), p1)" and "register env2 self p1 = (Inr (), p2)"
  shows "set (registered (trace p2)) = set (registered (trace p1)) \<and>
    (\<exists>s. trace p1 = trace p @ register_calls s \<and> trace p2 = trace p1 @ register_calls s) \<and>
    registered (trace p1) =
      registered (trace p) @ [OrderService, EchoService, Health, CheckStatusOrderService] \<and>
    registered (trace p2) =
      registered (trace p1) @ [OrderService, EchoService, Health, CheckStatusOrderService]"
proof -
  from register_effect [OF assms(1)] obtain obj s where
    1: "heap p self = Some obj" "server obj = Some s" "trace p1 = trace p @ register_calls s"
      "heap p1 = heap p"
    by auto
  from register_effect [OF assms(2)] 1 have 2: "trace p2 = trace p1 @ register_calls s"
    by auto
  from 1 2 show ?thesis
    by (auto simp: registered_append register_calls_def)
qed

theorem register_twice_witness:
  "\<exists>p p1 p2. Server_call no_failures example_settings fresh_process = (Inr 0, p) \<and>
     register no_failures 0 p = (Inr (), p1) \<and> register no_failures 0 p1 = (Inr (), p2) \<and>
     set (registered (trace p2)) = set (registered (trace p1)) \<and>
     registered (trace p2) =
       [OrderService, EchoService, Health, CheckStatusOrderService,
        OrderService, EchoService, Health, CheckStatusOrderService]"
proof -
  obtain p where p: "Server_call no_failures example_settings fresh_process = (Inr 0, p)"
    and t: "trace p = init_calls example_settings 0"
    and h: "heap p 0 = Some \<lparr>SERVER_ADDRESS = Some ''127.0.0.1:50099'', server = Some 0,
                        initialized = Some True\<rparr>"
    using Server_call_no_failures by blast
  obtain p1 where p1: "register no_failures 0 p = (Inr (), p1)" and h1: "heap p1 = heap p"
    using h by (simp add: register_def step_defs no_failures_def)
  obtain p2 where p2: "register no_failures 0 p1 = (Inr (), p2)"
    using h h1 by (simp add: register_def step_defs no_failures_def)
  have r0: "registered (trace p) = []"
    by (simp add: t init_calls_def)
  from register_twice [OF p1 p2] r0 have
    "set (registered (trace p2)) = set (registered (trace p1))"
    "registered (trace p2) =
       [OrderService, EchoService, Health, CheckStatusOrderService,
        OrderService, EchoService, Health, CheckStatusOrderService]"
    by auto
  with p p1 p2 show ?thesis
    by blast
qed

section \<open>The reflection name set and the interceptor chain\<close>

text \<open>
  C4: the names that a completed \<^verbatim>\<open>Server()\<close> passes to
  \<^verbatim>\<open>enable_server_reflection\<close> are, as a set, exactly the names of the business services
  that \<^verbatim>\<open>register()\<close> binds (all it binds but the health service), the name of the
  health service and the name of the reflection service itself; no name occurs twice.
\<close>

theorem reflection_name_set:
  assumes "Server_call env cfg fresh_process = (Inr r, p)"
    and "register env' r p = (Inr (), p')"
  shows "\<exists>names. reflected (trace p') = [names] \<and> distinct names \<and>
    set names =
      {n \<in> set (registered (trace p')). n \<noteq> Health} \<union> {Health} \<union> {ServerReflection}"
proof -
  from Server_call_fresh [OF assms(1)] have
    r: "r = 0" and t: "trace p = init_calls cfg 0"
    and h: "heap p 0 = Some \<lparr>SERVER_ADDRESS = Some (GRPC_HOST_LOCAL cfg @ '':'' @ GRPC_PORT cfg),
                            server = Some 0, initialized = Some True\<rparr>"
    by simp_all
  from register_effect [OF assms(2)] r h have t': "trace p' = trace p @ register_calls 0"
    by auto
  have "reflected (trace p') = [SERVICE_NAMES]"
    by (simp add: t t' init_calls_def register_calls_def)
  moreover have "registered (trace p') =
      [OrderService, EchoService, Health, CheckStatusOrderService]"
    by (simp add: t t' init_calls_def register_calls_def)
  ultimately show ?thesis
    by (auto simp: SERVICE_NAMES_def)
qed

theorem reflection_name_set_witness:
  "\<exists>p p'. Server_call no_failures example_settings fresh_process = (Inr 0, p) \<and>
     register no_failures 0 p = (Inr (), p') \<and>
     reflected (trace p') =
       [[OrderService, EchoService, Health, CheckStatusOrderService, ServerReflection]] \<and>
     registered (trace p') = [OrderService, EchoService, Health, CheckStatusOrderService]"
proof -
  obtain p where p: "Server_call no_failures example_settings fresh_process = (Inr 0, p)"
    and t: "trace p = init_calls example_settings 0"
    and h: "heap p 0 = Some \<lparr>SERVER_ADDRESS = Some ''127.0.0.1:50099'', server = Some 0,
                        initialized = Some True\<rparr>"
    using Server_call_no_failures by blast
  obtain p' where p': "register no_failures 0 p = (Inr (), p')"
    and t': "trace p' = trace p @ register_calls 0"
    using h by (simp add: register_def step_defs no_failures_def register_calls_def)
  from reflection_name_set [OF p p'] obtain names where
    n: "reflected (trace p') = [names]" by blast
  have "reflected (trace p') = [SERVICE_NAMES]"
    by (simp add: t t' init_calls_def register_calls_def)
  with n have "reflected (trace p') =
      [[OrderService, EchoService, Health, CheckStatusOrderService, ServerReflection]]"
    by (simp add: SERVICE_NAMES_def)
  moreover have "registered (trace p') =
      [OrderService, EchoService, Health, CheckStatusOrderService]"
    by (simp add: t t' init_calls_def register_calls_def)
  ultimately show ?thesis
    using p p' by blast
qed

text \<open>
  C5, as the specification states it: \<^verbatim>\<open>AuthInterceptor\<close> is the first and only element
  of the interceptor chain of the server. The class calls \<^verbatim>\<open>instrument()\<close> before
  \<^verbatim>\<open>aio.server(...)\<close>, so in a process where no call raises the chain of the server that
  \<^verbatim>\<open>Server()\<close> creates is not the one-element list written in the source.
\<close>

theorem auth_interceptor_is_not_alone:
  "\<not> snd (snd (hd (created_servers (trace (snd
        (Server_call no_failures example_settings fresh_process)))))) =
      [AuthInterceptor ''s3cr3t'']"
  by (simp add: Server_call_def Server_new_def Server_init_def Server_init_body_def
      hasattr_initialized_def step_defs fresh_process_def no_attributes_def no_failures_def
      example_settings_def)

text \<open>
  C5, amended: a completed \<^verbatim>\<open>Server()\<close> has created one server, the one held in the
  attribute \<^verbatim>\<open>server\<close>, with a pool of 10 workers, and its interceptor chain is the
  tracing interceptor that the instrumentation puts in front, followed by
  \<^verbatim>\<open>AuthInterceptor\<close> built from the configured secret, as second and last element.
  Whatever the interceptors decide, an inbound call reaches a handler only after both
  were invoked, in this order, and \<^verbatim>\<open>AuthInterceptor\<close> passed it on; and every call
  that the tracing interceptor passes on is given to \<^verbatim>\<open>AuthInterceptor\<close>.
\<close>

theorem interceptor_chain:
  assumes "Server_call env cfg fresh_process = (Inr r, p)"
  shows "\<exists>s obj chain. created_servers (trace p) = [(s, 10, chain)] \<and>
    heap p r = Some obj \<and> server obj = Some s \<and>
    chain = [OpenTelemetryAioServerInterceptor, AuthInterceptor (SECRET_KEY cfg)] \<and>
    (\<forall>passes (rpc :: 'rpc) js. dispatch passes chain rpc = (js, True) \<longrightarrow>
       js = [OpenTelemetryAioServerInterceptor, AuthInterceptor (SECRET_KEY cfg)] \<and>
       passes (AuthInterceptor (SECRET_KEY cfg)) rpc) \<and>
    (\<forall>passes (rpc :: 'rpc). passes OpenTelemetryAioServerInterceptor rpc \<longrightarrow>
       AuthInterceptor (SECRET_KEY cfg) \<in> set (fst (dispatch passes chain rpc)))"
proof -
  from Server_call_fresh [OF assms] have
    "r = 0" and "trace p = init_calls cfg 0"
    and "heap p 0 = Some \<lparr>SERVER_ADDRESS = Some (GRPC_HOST_LOCAL cfg @ '':'' @ GRPC_PORT cfg),
                            server = Some 0, initialized = Some True\<rparr>"
    by simp_all
  then show ?thesis
    by (auto simp: init_calls_def split: if_splits)
qed

theorem interceptor_chain_witness:
  "\<exists>p. Server_call no_failures example_settings fresh_process = (Inr 0, p) \<and>
     created_servers (trace p) =
       [(0, 10, [OpenTelemetryAioServerInterceptor, AuthInterceptor ''s3cr3t''])]"
proof -
  obtain p where p: "Server_call no_failures example_settings fresh_process = (Inr 0, p)"
    and t: "trace p = init_calls example_settings 0"
    using Server_call_no_failures by blast
  from interceptor_chain [OF p, where ?'rpc = unit] obtain s chain where
    "created_servers (trace p) = [(s, 10, chain)]"
    "chain = [OpenTelemetryAioServerInterceptor, AuthInterceptor (SECRET_KEY example_settings)]"
    by blast
  moreover have "created_servers (trace p) =
      [(0, 10, [OpenTelemetryAioServerInterceptor, AuthInterceptor ''s3cr3t''])]"
    by (simp add: t init_calls_def example_settings_def)
  ultimately show ?thesis
    using p by blast
qed

section \<open>\<^verbatim>\<open>run\<close> and \<^verbatim>\<open>stop\<close>\<close>

text \<open>
  C6: on a constructed host, the library calls of \<^verbatim>\<open>run()\<close> are an initial part of
  this sequence: create the table (if it does not exist), the four bindings of
  \<^verbatim>\<open>register()\<close>, start the server, log the address, wait for termination. When
  \<^verbatim>\<open>run()\<close> returns, it has made all of them in this order, and the steps are: the
  table, then \<^verbatim>\<open>register()\<close>, then the other three. It returns when none of them
  raises.
\<close>

theorem run_order:
  assumes "heap p self = Some obj" and "server obj = Some s" and "SERVER_ADDRESS obj = Some a"
    and "run env self p = (res, p')"
  shows "(\<exists>tl. trace p' = trace p @ tl \<and>
            prefix tl (CreateTable True # register_calls s @
              [ServerStart s, LoggerInfo (ServiceStarted a), WaitForTermination s])) \<and>
         (res = Inr () \<longrightarrow>
            (\<exists>p1 p2. ext env (CreateTable True) p = (Inr (), p1) \<and>
               register env self p1 = (Inr (), p2) \<and>
               trace p1 = trace p @ [CreateTable True] \<and>
               trace p2 = trace p1 @ register_calls s \<and>
               trace p' = trace p2 @
                 [ServerStart s, LoggerInfo (ServiceStarted a), WaitForTermination s])) \<and>
         ((\<forall>c\<in>set (run_calls s a). env c = None) \<longrightarrow> res = Inr ())"
proof -
  from run_effect [OF assms(4)] assms(1-3) have
    1: "\<exists>tl. trace p' = trace p @ tl \<and> prefix tl (run_calls s a)"
    by blast
  have 2: "res = Inr () \<longrightarrow>
            (\<exists>p1 p2. ext env (CreateTable True) p = (Inr (), p1) \<and>
               register env self p1 = (Inr (), p2) \<and>
               trace p1 = trace p @ [CreateTable True] \<and>
               trace p2 = trace p1 @ register_calls s \<and>
               trace p' = trace p2 @
                 [ServerStart s, LoggerInfo (ServiceStarted a), WaitForTermination s])"
    using assms
    by (auto simp: run_def register_def step_defs register_calls_def
        split: option.splits prod.splits sum.splits)
  have 3: "(\<forall>c\<in>set (run_calls s a). env c = None) \<longrightarrow> res = Inr ()"
    using assms
    by (auto simp: run_def register_def step_defs register_calls_def run_calls_def
        split: option.splits prod.splits sum.splits)
  from 1 2 3 show ?thesis
    by (simp add: run_calls_def)
qed

theorem run_order_witness:
  "\<exists>p p'. Server_call no_failures example_settings fresh_process = (Inr 0, p) \<and>
     run no_failures 0 p = (Inr (), p') \<and>
     trace p' = trace p @
       [CreateTable True, AddServicer OrderService 0, AddServicer EchoService 0,
        AddServicer Health 0, AddServicer CheckStatusOrderService 0,
        ServerStart 0, LoggerInfo (ServiceStarted ''127.0.0.1:50099''), WaitForTermination 0]"
proof -
  obtain p where p: "Server_call no_failures example_settings fresh_process = (Inr 0, p)"
    and h: "heap p 0 = Some \<lparr>SERVER_ADDRESS = Some ''127.0.0.1:50099'', server = Some 0,
                        initialized = Some True\<rparr>"
    using Server_call_no_failures by blast
  obtain res p' where r: "run no_failures 0 p = (res, p')"
    by (cases "run no_failures 0 p")
  have ok: "\<forall>c\<in>set (run_calls 0 ''127.0.0.1:50099''). no_failures c = None"
    by (simp add: no_failures_def)
  have s0: "server \<lparr>SERVER_ADDRESS = Some ''127.0.0.1:50099'', server = Some 0,
      initialized = Some True\<rparr> = Some 0"
    by simp
  have a0: "SERVER_ADDRESS \<lparr>SERVER_ADDRESS = Some ''127.0.0.1:50099'', server = Some 0,
      initialized = Some True\<rparr> = Some ''127.0.0.1:50099''"
    by simp
  note ro = run_order [OF h s0 a0 r]
  from ro ok have res: "res = Inr ()"
    by simp
  from ro have "res = Inr () \<longrightarrow>
      (\<exists>p1 p2. ext no_failures (CreateTable True) p = (Inr (), p1) \<and>
         register no_failures 0 p1 = (Inr (), p2) \<and>
         trace p1 = trace p @ [CreateTable True] \<and>
         trace p2 = trace p1 @ register_calls 0 \<and>
         trace p' = trace p2 @
           [ServerStart 0, LoggerInfo (ServiceStarted ''127.0.0.1:50099''),
            WaitForTermination 0])"
    by (rule conjunct1 [OF conjunct2])
  with res have "trace p' = trace p @
       [CreateTable True, AddServicer OrderService 0, AddServicer EchoService 0,
        AddServicer Health 0, AddServicer CheckStatusOrderService 0,
        ServerStart 0, LoggerInfo (ServiceStarted ''127.0.0.1:50099''), WaitForTermination 0]"
    by (auto simp: register_calls_def)
  with p r res show ?thesis
    by blast
qed

text \<open>
  C7: \<^verbatim>\<open>stop()\<close> on a constructed host logs the stop line and then asks the server of
  the host to stop with \<^verbatim>\<open>grace=False\<close>: that is all it does when it returns, it
  returns when neither call raises, and every stop request it adds to the trace is one
  for that server without a grace period.
\<close>

theorem stop_no_grace:
  assumes "heap p self = Some obj" and "server obj = Some s"
    and "stop env self p = (res, p')"
  shows "(res = Inr () \<longrightarrow>
            trace p' = trace p @ [LoggerInfo ServiceStopped, ServerStop s False]) \<and>
         (env (LoggerInfo ServiceStopped) = None \<and> env (ServerStop s False) = None
            \<longrightarrow> res = Inr ()) \<and>
         (\<exists>tl. trace p' = trace p @ tl \<and> (\<forall>x\<in>set (stop_requests tl). x = (s, False)))"
  using assms
  by (auto simp: stop_def step_defs split: option.splits prod.splits sum.splits)

theorem stop_no_grace_witness:
  "\<exists>p p'. Server_call no_failures example_settings fresh_process = (Inr 0, p) \<and>
     stop no_failures 0 p = (Inr (), p') \<and>
     trace p' = trace p @ [LoggerInfo ServiceStopped, ServerStop 0 False]"
proof -
  obtain p where p: "Server_call no_failures example_settings fresh_process = (Inr 0, p)"
    and h: "heap p 0 = Some \<lparr>SERVER_ADDRESS = Some ''127.0.0.1:50099'', server = Some 0,
                        initialized = Some True\<rparr>"
    using Server_call_no_failures by blast
  obtain res p' where r: "stop no_failures 0 p = (res, p')"
    by (cases "stop no_failures 0 p")
  from stop_no_grace [OF h _ r, of 0]
  have "res = Inr ()" and "trace p' = trace p @ [LoggerInfo ServiceStopped, ServerStop 0 False]"
    by (simp_all add: no_failures_def)
  then show ?thesis
    using p r by blast
qed

section \<open>When reflection is enabled\<close>

text \<open>
  C2, as the specification states it: reflection is enabled only after all service
  registrations are bound. In a process where no call raises, after \<^verbatim>\<open>Server()\<close> and
  \<^verbatim>\<open>run()\<close> four services are bound, and none of them was bound when reflection was
  enabled: \<^verbatim>\<open>__init__\<close> enables reflection, \<^verbatim>\<open>register()\<close> runs later, inside
  \<^verbatim>\<open>run()\<close>.
\<close>

theorem reflection_precedes_registration:
  "\<not> set (registered (trace (snd (run no_failures 0
          (snd (Server_call no_failures example_settings fresh_process))))))
      \<subseteq> set (registered (before_reflection (trace (snd (run no_failures 0
          (snd (Server_call no_failures example_settings fresh_process)))))))"
proof -
  obtain p where p: "Server_call no_failures example_settings fresh_process = (Inr 0, p)"
    and t: "trace p = init_calls example_settings 0"
    and h: "heap p 0 = Some \<lparr>SERVER_ADDRESS = Some ''127.0.0.1:50099'', server = Some 0,
                        initialized = Some True\<rparr>"
    using Server_call_no_failures by blast
  have "trace (snd (run no_failures 0 p)) =
      init_calls example_settings 0 @ run_calls 0 ''127.0.0.1:50099''"
    using h t
    by (simp add: run_def register_def step_defs no_failures_def run_calls_def
        register_calls_def)
  then have "\<not> set (registered (trace (snd (run no_failures 0 p))))
      \<subseteq> set (registered (before_reflection (trace (snd (run no_failures 0 p)))))"
    by (simp add: init_calls_def run_calls_def register_calls_def before_reflection_def)
  then show ?thesis
    by (simp add: p)
qed

text \<open>
  C2, amended: after a completed first \<^verbatim>\<open>Server()\<close> and a \<^verbatim>\<open>run()\<close> on the host
  (whether it returns or raises), reflection has been enabled exactly once, by the
  constructor, with no service bound and no server started before it; every binding was
  made before the server started; and when \<^verbatim>\<open>run()\<close> returns, the four services are
  bound and the server was started once.
\<close>

theorem reflection_order:
  assumes "Server_call env1 cfg fresh_process = (Inr r, p1)"
    and "run env2 r p1 = (res, p2)"
  shows "reflected (trace p2) = [SERVICE_NAMES] \<and>
    reflected (trace p1) = [SERVICE_NAMES] \<and>
    registered (before_reflection (trace p2)) = [] \<and>
    started (before_reflection (trace p2)) = [] \<and>
    registered (before_start (trace p2)) = registered (trace p2) \<and>
    (res = Inr () \<longrightarrow>
       registered (trace p2) = [OrderService, EchoService, Health, CheckStatusOrderService] \<and>
       started (trace p2) = [0])"
proof -
  let ?a = "GRPC_HOST_LOCAL cfg @ '':'' @ GRPC_PORT cfg"
  from Server_call_fresh [OF assms(1)] have
    r: "r = 0" and t: "trace p1 = init_calls cfg 0"
    and h: "heap p1 0 = Some \<lparr>SERVER_ADDRESS = Some ?a, server = Some 0,
                             initialized = Some True\<rparr>"
    by simp_all
  from run_effect [OF assms(2)] r h obtain tl where
    tl: "trace p2 = trace p1 @ tl" "prefix tl (run_calls 0 ?a)"
      "res = Inr () \<longleftrightarrow> tl = run_calls 0 ?a"
    by auto
  from tl(2) have cases: "tl \<in> set (prefixes (run_calls 0 ?a))"
    by simp
  have 1: "reflected (trace p1) = [SERVICE_NAMES]"
    by (simp add: t init_calls_def)
  have 2: "reflected tl = []"
    using cases by (auto simp: run_calls_def register_calls_def)
  have 3: "before_reflection (trace p2) = take 9 (init_calls cfg 0)"
    by (simp add: tl(1) t init_calls_def before_reflection_def)
  have 4: "registered (before_start (trace p2)) = registered (trace p2)"
    using cases
    by (auto simp: tl(1) t init_calls_def run_calls_def register_calls_def before_start_def)
  have 5: "res = Inr () \<longrightarrow>
       registered (trace p2) = [OrderService, EchoService, Health, CheckStatusOrderService] \<and>
       started (trace p2) = [0]"
    by (simp add: tl t init_calls_def run_calls_def register_calls_def)
  from 1 2 3 4 5 show ?thesis
    by (simp add: tl(1) reflected_append init_calls_def)
qed

theorem reflection_order_witness:
  "\<exists>p1 p2. Server_call no_failures example_settings fresh_process = (Inr 0, p1) \<and>
     run no_failures 0 p1 = (Inr (), p2) \<and>
     reflected (trace p2) = [SERVICE_NAMES] \<and>
     registered (before_reflection (trace p2)) = [] \<and>
     registered (trace p2) = [OrderService, EchoService, Health, CheckStatusOrderService] \<and>
     started (trace p2) = [0]"
proof -
  obtain p1 where p1: "Server_call no_failures example_settings fresh_process = (Inr 0, p1)"
    and h: "heap p1 0 = Some \<lparr>SERVER_ADDRESS = Some ''127.0.0.1:50099'', server = Some 0,
                        initialized = Some True\<rparr>"
    using Server_call_no_failures by blast
  obtain p2 where p2: "run no_failures 0 p1 = (Inr (), p2)"
    using h by (simp add: run_def register_def step_defs no_failures_def)
  from reflection_order [OF p1 p2] p1 p2 show ?thesis
    by blast
qed

section \<open>The singleton across constructions\<close>

lemma init_body_needs_object:
  assumes "heap p self = None"
  shows "\<exists>e p'. Server_init_body env cfg self p = (Inl e, p')"
  using assms
  by (auto simp: Server_init_body_def step_defs split: option.splits prod.splits sum.splits)

lemma short_prefix_of_init_calls:
  assumes "prefix cs (init_calls cfg s)" and "length cs < 10"
  shows "reflected cs = []"
proof -
  from assms(1) have "cs \<in> set (prefixes (init_calls cfg s))"
    by simp
  with assms(2) show ?thesis
    by (auto simp: init_calls_def)
qed

text \<open>A \<^verbatim>\<open>Server()\<close> that returns leaves its object in the slot, marked initialized.\<close>

lemma Server_call_returns:
  assumes "Server_call env cfg q = (Inr r, q')"
  shows "Server_instance q' = Some r \<and> hasattr_initialized r q'"
proof -
  obtain r0 q1 where new: "Server_new q = (r0, q1)"
    by (cases "Server_new q")
  from new have slot: "Server_instance q1 = Some r0"
    by (auto simp: Server_new_def Let_def split: option.splits)
  show ?thesis
  proof (cases "hasattr_initialized r0 q1")
    case True
    with assms new slot show ?thesis
      by (simp add: Server_call_def Server_init_def)
  next
    case False
    with assms new have body: "Server_init_body env cfg r0 q1 = (Inr (), q')" and r: "r = r0"
      by (auto simp: Server_call_def Server_init_def split: sum.splits prod.splits)
    obtain obj where obj: "heap q1 r0 = Some obj"
      using init_body_needs_object [of q1 r0 env cfg] body
      by (cases "heap q1 r0") auto
    from init_body_effect [OF obj body] slot r show ?thesis
      by (auto simp: hasattr_initialized_def)
  qed
qed

text \<open>On an initialized singleton, \<^verbatim>\<open>Server()\<close> returns it and does nothing else.\<close>

lemma Server_call_completed:
  assumes "Server_instance q = Some r" and "hasattr_initialized r q"
  shows "Server_call env cfg q = (Inr r, q)"
  using assms by (simp add: Server_call_def Server_new_def Server_init_def)

lemma constructions_completed:
  assumes "Server_instance q = Some r" and "hasattr_initialized r q"
  shows "constructions cfg envs q = (replicate (length envs) (Inr r), q)"
  using assms by (induction envs) (simp_all add: Server_call_completed)

lemma constructions_append:
  "constructions cfg (es1 @ es2) p =
     (case constructions cfg es1 p of
        (xs1, p1) \<Rightarrow>
          (case constructions cfg es2 p1 of
             (xs2, p2) \<Rightarrow> (xs1 @ xs2, p2)))"
  by (induction es1 arbitrary: p) (simp_all split: prod.splits)

lemma singleton_inv_fresh: "singleton_inv fresh_process"
  by (simp add: singleton_inv_def fresh_process_def)

lemma Server_call_inv:
  assumes "singleton_inv p" and "Server_call env cfg p = (res, p')"
  shows "singleton_inv p' \<and> Server_instance p' = Some 0 \<and> next_ref p' = 1 \<and>
    (case res of
       Inr r \<Rightarrow> r = 0 \<and> hasattr_initialized 0 p'
     | Inl e \<Rightarrow> \<not> hasattr_initialized 0 p')"
proof -
  obtain p1 where new: "Server_new p = (0, p1)"
    and slot: "Server_instance p1 = Some 0" and nr: "next_ref p1 = 1"
    and tr: "trace p1 = trace p"
    and hp: "heap p1 0 \<noteq> None"
    and refl: "reflected (trace p1) = (if hasattr_initialized 0 p1 then [SERVICE_NAMES] else [])"
    using assms(1)
    by (cases "Server_instance p")
      (auto simp: singleton_inv_def Server_new_def hasattr_initialized_def no_attributes_def)
  show ?thesis
  proof (cases "hasattr_initialized 0 p1")
    case True
    with assms(2) new have "res = Inr 0" and "p' = p1"
      by (simp_all add: Server_call_def Server_init_def)
    with True slot nr hp refl show ?thesis
      by (simp add: singleton_inv_def)
  next
    case False
    obtain r2 where body: "Server_init_body env cfg 0 p1 = (r2, p')"
      and res: "res = (case r2 of Inl e \<Rightarrow> Inl e | Inr u \<Rightarrow> Inr 0)"
      using assms(2) new False
      by (cases "Server_init_body env cfg 0 p1")
        (auto simp: Server_call_def Server_init_def split: sum.splits)
    from hp obtain obj where obj: "heap p1 0 = Some obj"
      by auto
    from False obj have ni: "initialized obj = None"
      by (simp add: hasattr_initialized_def)
    from False refl have r0: "reflected (trace p1) = []"
      by simp
    show ?thesis
    proof (cases r2)
      case (Inl e)
      with body have b: "Server_init_body env cfg 0 p1 = (Inl e, p')"
        by simp
      from init_body_effect [OF obj b] obtain cs obj' where
        eff: "Server_instance p' = Server_instance p1" "next_ref p' = next_ref p1"
          "trace p' = trace p1 @ cs" "prefix cs (init_calls cfg (next_srv p1))"
          "heap p' 0 = Some obj'" "initialized obj' = initialized obj" "length cs < 10"
        by auto
      from short_prefix_of_init_calls [OF eff(4) eff(7)] eff slot nr ni r0 res Inl
      show ?thesis
        by (simp add: singleton_inv_def hasattr_initialized_def reflected_append)
    next
      case (Inr u)
      with body have b: "Server_init_body env cfg 0 p1 = (Inr u, p')"
        by simp
      from init_body_effect [OF obj b] obtain cs obj' where
        eff: "Server_instance p' = Server_instance p1" "next_ref p' = next_ref p1"
          "trace p' = trace p1 @ cs" "cs = init_calls cfg (next_srv p1)"
          "heap p' 0 = Some obj'" "initialized obj' = Some True"
        by auto
      from eff slot nr r0 res Inr show ?thesis
        by (simp add: singleton_inv_def hasattr_initialized_def reflected_append init_calls_def)
    qed
  qed
qed

lemma constructions_inv:
  assumes "singleton_inv p" and "constructions cfg envs p = (xs, p')"
  shows "singleton_inv p' \<and> (\<forall>x\<in>set xs. \<forall>r. x = Inr r \<longrightarrow> r = 0) \<and>
    (xs \<noteq> [] \<longrightarrow> Server_instance p' = Some 0 \<and>
       (case last xs of Inr r \<Rightarrow> hasattr_initialized 0 p' | Inl e \<Rightarrow> \<not> hasattr_initialized 0 p'))"
  using assms
proof (induction envs arbitrary: p xs p')
  case Nil
  then show ?case by simp
next
  case (Cons env envs)
  obtain x p1 where c: "Server_call env cfg p = (x, p1)"
    by (cases "Server_call env cfg p")
  obtain ys p2 where r: "constructions cfg envs p1 = (ys, p2)"
    by (cases "constructions cfg envs p1")
  from Cons.prems(2) c r have xs: "xs = x # ys" and p': "p' = p2"
    by simp_all
  note i1 = Server_call_inv [OF Cons.prems(1) c]
  from i1 have inv1: "singleton_inv p1" by simp
  note ih = Cons.IH [OF inv1 r]
  show ?case
  proof (cases "ys = []")
    case True
    with r have "envs = []"
      by (cases envs) (auto split: prod.splits)
    with r have "p2 = p1" by simp
    with i1 True xs p' show ?thesis
      by (auto split: sum.splits)
  next
    case False
    with ih i1 xs p' show ?thesis
      by (auto split: sum.splits)
  qed
qed

lemma length_constructions:
  "constructions cfg envs p = (xs, p') \<Longrightarrow> length xs = length envs"
  by (induction envs arbitrary: p xs) (auto split: prod.splits)

text \<open>
  C3, as the specification states it: over any sequence of \<^verbatim>\<open>Server()\<close> calls the
  initialization body executes at most once. When the first call finds the configured
  address taken, \<^verbatim>\<open>add_insecure_port\<close> raises before \<^verbatim>\<open>initialized\<close> is set, and the
  second call executes the body again: two servers have been created.
\<close>

theorem init_body_runs_again:
  "\<not> length (created_servers (trace (snd
        (constructions example_settings [address_in_use, no_failures] fresh_process)))) \<le> 1"
  by (simp add: Server_call_def Server_new_def Server_init_def Server_init_body_def
      hasattr_initialized_def step_defs fresh_process_def no_attributes_def no_failures_def
      address_in_use_def example_settings_def)

text \<open>
  C3, amended: over any sequence of \<^verbatim>\<open>Server()\<close> calls in one process, under any
  environments, every call that returns gives the same object; at most one
  \<^verbatim>\<open>Server\<close> object is ever allocated, so at most one host instance is ever bound;
  the initialization body runs to its end (reflection enabled) at most once; once a
  call has returned, every later call returns the same object and leaves the process
  as it is; and when the calls of the body do not raise in the first call, the body
  is executed exactly once over the whole sequence.
\<close>

theorem singleton_constructions:
  assumes "constructions cfg envs fresh_process = (xs, p)"
  shows "(\<forall>x\<in>set xs. \<forall>r. x = Inr r \<longrightarrow> r = 0) \<and>
    next_ref p \<le> 1 \<and>
    length (reflected (trace p)) \<le> 1 \<and>
    (\<forall>es1 env es2 xs1 r q.
       envs = es1 @ env # es2 \<and>
       constructions cfg (es1 @ [env]) fresh_process = (xs1 @ [Inr r], q) \<longrightarrow>
       xs = xs1 @ Inr r # replicate (length es2) (Inr r) \<and> p = q) \<and>
    (\<forall>env es. envs = env # es \<and> (\<forall>c\<in>set (init_calls cfg 0). env c = None) \<longrightarrow>
       xs = replicate (length envs) (Inr 0) \<and> trace p = init_calls cfg 0)"
proof -
  from constructions_inv [OF singleton_inv_fresh assms] have
    inv: "singleton_inv p" and same: "\<forall>x\<in>set xs. \<forall>r. x = Inr r \<longrightarrow> r = 0"
    by simp_all
  from inv have alloc: "next_ref p \<le> 1" and once: "length (reflected (trace p)) \<le> 1"
    by (auto simp: singleton_inv_def split: option.splits if_splits)
  have later: "xs = xs1 @ Inr r # replicate (length es2) (Inr r) \<and> p = q"
    if split: "envs = es1 @ env # es2"
      and part: "constructions cfg (es1 @ [env]) fresh_process = (xs1 @ [Inr r], q)"
    for es1 env es2 xs1 r q
  proof -
    obtain ys q0 where a: "constructions cfg es1 fresh_process = (ys, q0)"
      by (cases "constructions cfg es1 fresh_process")
    obtain x q1 where b: "Server_call env cfg q0 = (x, q1)"
      by (cases "Server_call env cfg q0")
    from part a b have "ys @ [x] = xs1 @ [Inr r]" and q: "q1 = q"
      by (simp_all add: constructions_append)
    then have x: "x = Inr r"
      by simp
    from Server_call_returns [OF b [unfolded x]] q have
      fin: "Server_instance q = Some r" "hasattr_initialized r q"
      by simp_all
    have "envs = (es1 @ [env]) @ es2"
      using split by simp
    then have "constructions cfg envs fresh_process =
        (case constructions cfg (es1 @ [env]) fresh_process of
           (xs1, p1) \<Rightarrow>
             (case constructions cfg es2 p1 of
                (xs2, p2) \<Rightarrow> (xs1 @ xs2, p2)))"
      by (simp only: constructions_append)
    with assms part constructions_completed [OF fin, of cfg es2] show ?thesis
      by simp
  qed
  have clean: "xs = replicate (length envs) (Inr 0) \<and> trace p = init_calls cfg 0"
    if envs: "envs = env # es" and ok: "\<forall>c\<in>set (init_calls cfg 0). env c = None"
    for env es
  proof -
    obtain x q where c: "Server_call env cfg fresh_process = (x, q)"
      by (cases "Server_call env cfg fresh_process")
    have "\<exists>r. x = Inr r"
    proof (cases x)
      case (Inl e)
      with Server_call_fresh [OF c] have
        "length (trace q) < 10" "env (init_calls cfg 0 ! length (trace q)) = Some e"
        by simp_all
      moreover have "length (init_calls cfg 0) = 10"
        by (simp add: init_calls_def)
      ultimately have "\<exists>c\<in>set (init_calls cfg 0). env c = Some e"
        by (metis nth_mem)
      with ok show ?thesis
        by auto
    next
      case (Inr r)
      then show ?thesis by simp
    qed
    with Server_call_fresh [OF c] have x: "x = Inr 0" and t: "trace q = init_calls cfg 0"
      by auto
    from Server_call_returns [OF c [unfolded x]] have
      fin: "Server_instance q = Some 0" "hasattr_initialized 0 q"
      by simp_all
    from assms envs c x constructions_completed [OF fin, of cfg es] t show ?thesis
      by simp
  qed
  from same alloc once later clean show ?thesis
    by blast
qed

theorem singleton_constructions_witness:
  "fst (constructions example_settings [address_in_use, no_failures, no_failures] fresh_process) =
     [Inl (Raised ''Failed to bind to address''), Inr 0, Inr 0] \<and>
   next_ref (snd (constructions example_settings [address_in_use, no_failures, no_failures]
     fresh_process)) \<le> 1 \<and>
   length (reflected (trace (snd (constructions example_settings
     [address_in_use, no_failures, no_failures] fresh_process)))) \<le> 1 \<and>
   snd (constructions example_settings [address_in_use, no_failures, no_failures] fresh_process) =
     snd (constructions example_settings [address_in_use, no_failures] fresh_process)"
proof -
  let ?envs = "[address_in_use, no_failures, no_failures]"
  obtain xs p where c: "constructions example_settings ?envs fresh_process = (xs, p)"
    by (cases "constructions example_settings ?envs fresh_process")
  obtain ys q where d: "constructions example_settings [address_in_use, no_failures] fresh_process
      = (ys, q)"
    by (cases "constructions example_settings [address_in_use, no_failures] fresh_process")
  have xs: "xs = [Inl (Raised ''Failed to bind to address''), Inr 0, Inr 0]"
    using c
    by (simp add: Server_call_def Server_new_def Server_init_def Server_init_body_def
      hasattr_initialized_def step_defs fresh_process_def no_attributes_def no_failures_def
      address_in_use_def example_settings_def split: prod.splits)
  have ys: "ys = [Inl (Raised ''Failed to bind to address'')] @ [Inr 0]"
    using d
    by (simp add: Server_call_def Server_new_def Server_init_def Server_init_body_def
      hasattr_initialized_def step_defs fresh_process_def no_attributes_def no_failures_def
      address_in_use_def example_settings_def split: prod.splits)
  note sc = singleton_constructions [OF c]
  from sc have 1: "next_ref p \<le> 1" and 2: "length (reflected (trace p)) \<le> 1"
    by simp_all
  from sc have "\<forall>es1 env es2 xs1 r q.
       ?envs = es1 @ env # es2 \<and>
       constructions example_settings (es1 @ [env]) fresh_process = (xs1 @ [Inr r], q) \<longrightarrow>
       xs = xs1 @ Inr r # replicate (length es2) (Inr r) \<and> p = q"
    by (rule conjunct1 [OF conjunct2 [OF conjunct2 [OF conjunct2]]])
  from this [rule_format, of "[address_in_use]" no_failures "[no_failures]"
      "[Inl (Raised ''Failed to bind to address'')]" 0 q] d ys
  have 3: "p = q"
    by simp
  from xs 1 2 3 show ?thesis
    unfolding c d by simp
qed

text \<open>
  C10: when the last of any sequence of \<^verbatim>\<open>Server()\<close> calls raised, the object it
  worked on is still in the slot, it is the only object allocated and it has no
  attribute \<^verbatim>\<open>initialized\<close>; the next \<^verbatim>\<open>Server()\<close> allocates nothing and is exactly
  a run of the initialization body on that object; and when no call of the body raises
  this time, it makes every call of the body again, in order, marks the object
  initialized and returns it.
\<close>

theorem failed_construction_is_retried:
  assumes "constructions cfg envs fresh_process = (xs, p)"
    and "xs \<noteq> []" and "last xs = Inl e"
  shows "\<exists>obj. Server_instance p = Some 0 \<and> next_ref p = 1 \<and>
    heap p 0 = Some obj \<and> initialized obj = None \<and>
    (\<forall>env. Server_call env cfg p =
       (case Server_init_body env cfg 0 p of
          (Inl e', q) \<Rightarrow> (Inl e', q)
        | (Inr u, q) \<Rightarrow> (Inr 0, q))) \<and>
    (\<forall>env. (\<forall>c\<in>set (init_calls cfg (next_srv p)). env c = None) \<longrightarrow>
       (\<exists>q. Server_call env cfg p = (Inr 0, q) \<and> Server_instance q = Some 0 \<and>
          next_ref q = 1 \<and> hasattr_initialized 0 q \<and>
          trace q = trace p @ init_calls cfg (next_srv p)))"
proof -
  from constructions_inv [OF singleton_inv_fresh assms(1)] assms(2,3) have
    inv: "singleton_inv p" and slot: "Server_instance p = Some 0"
    and ni: "\<not> hasattr_initialized 0 p"
    by simp_all
  from inv slot have nr: "next_ref p = 1" and "heap p 0 \<noteq> None"
    by (simp_all add: singleton_inv_def)
  then obtain obj where obj: "heap p 0 = Some obj"
    by auto
  with ni have flag: "initialized obj = None"
    by (simp add: hasattr_initialized_def)
  have again: "Server_call env cfg p =
       (case Server_init_body env cfg 0 p of
          (Inl e', q) \<Rightarrow> (Inl e', q)
        | (Inr u, q) \<Rightarrow> (Inr 0, q))" for env
    using slot ni by (simp add: Server_call_def Server_new_def Server_init_def)
  have retry: "\<exists>q. Server_call env cfg p = (Inr 0, q) \<and> Server_instance q = Some 0 \<and>
          next_ref q = 1 \<and> hasattr_initialized 0 q \<and>
          trace q = trace p @ init_calls cfg (next_srv p)"
    if ok: "\<forall>c\<in>set (init_calls cfg (next_srv p)). env c = None" for env
  proof -
    obtain r2 q where body: "Server_init_body env cfg 0 p = (r2, q)"
      by (cases "Server_init_body env cfg 0 p")
    have len: "length (init_calls cfg (next_srv p)) = 10"
      by (simp add: init_calls_def)
    show ?thesis
    proof (cases r2)
      case (Inl e')
      with init_body_effect [OF obj body] have
        "\<exists>k<10. env (init_calls cfg (next_srv p) ! k) = Some e'"
        by auto
      with len have "\<exists>c\<in>set (init_calls cfg (next_srv p)). env c = Some e'"
        by (metis nth_mem)
      with ok show ?thesis
        by auto
    next
      case (Inr u)
      with init_body_effect [OF obj body] slot nr again [of env] body show ?thesis
        by (auto simp: hasattr_initialized_def)
    qed
  qed
  from slot nr obj flag again retry show ?thesis
    by blast
qed

theorem failed_construction_is_retried_witness:
  "\<exists>p q. constructions example_settings [address_in_use] fresh_process =
       ([Inl (Raised ''Failed to bind to address'')], p) \<and>
     Server_instance p = Some 0 \<and> next_ref p = 1 \<and> \<not> hasattr_initialized 0 p \<and>
     Server_call no_failures example_settings p = (Inr 0, q) \<and>
     Server_instance q = Some 0 \<and> next_ref q = 1 \<and> hasattr_initialized 0 q \<and>
     trace q = trace p @ init_calls example_settings 1"
proof -
  obtain p where c: "constructions example_settings [address_in_use] fresh_process =
       ([Inl (Raised ''Failed to bind to address'')], p)" and s: "next_srv p = 1"
    by (simp add: Server_call_def Server_new_def Server_init_def Server_init_body_def
      hasattr_initialized_def step_defs fresh_process_def no_attributes_def
      address_in_use_def example_settings_def)
  from failed_construction_is_retried [OF c] obtain obj where
    f: "Server_instance p = Some 0" "next_ref p = 1" "heap p 0 = Some obj"
      "initialized obj = None"
      "\<forall>env. (\<forall>c\<in>set (init_calls example_settings (next_srv p)). env c = None) \<longrightarrow>
       (\<exists>q. Server_call env example_settings p = (Inr 0, q) \<and> Server_instance q = Some 0 \<and>
          next_ref q = 1 \<and> hasattr_initialized 0 q \<and>
          trace q = trace p @ init_calls example_settings (next_srv p))"
    by auto
  have "\<forall>c\<in>set (init_calls example_settings (next_srv p)). no_failures c = None"
    by (simp add: no_failures_def)
  with f(5) obtain q where
    "Server_call no_failures example_settings p = (Inr 0, q)" "Server_instance q = Some 0"
    "next_ref q = 1" "hasattr_initialized 0 q"
    "trace q = trace p @ init_calls example_settings (next_srv p)"
    by blast
  with c f s show ?thesis
    by (auto simp: hasattr_initialized_def)
qed

section \<open>A taken address\<close>

text \<open>
  C9: when binding the configured address raises, the first \<^verbatim>\<open>Server()\<close> of the process
  raises: it does not return a host. The object is left without \<^verbatim>\<open>initialized\<close>, no
  port is bound, reflection is not enabled, and the error is the one of
  \<^verbatim>\<open>add_insecure_port\<close> when the calls before it returned. The startup part of
  \<^verbatim>\<open>lifespan\<close> raises with it, in the same process state: no task for \<^verbatim>\<open>run()\<close> is
  created and no server is started.
\<close>

theorem address_in_use_is_fatal:
  assumes "\<forall>s. env (AddInsecurePort s (GRPC_HOST_LOCAL cfg @ '':'' @ GRPC_PORT cfg)) \<noteq> None"
    and "Server_call env cfg fresh_process = (res, p)"
  shows "(\<exists>e. res = Inl e \<and> lifespan_startup env cfg fresh_process = (Inl e, p)) \<and>
    \<not> hasattr_initialized 0 p \<and>
    bound_ports (trace p) = [] \<and> reflected (trace p) = [] \<and> started (trace p) = [] \<and>
    (\<forall>e. env (AddInsecurePort 0 (GRPC_HOST_LOCAL cfg @ '':'' @ GRPC_PORT cfg)) = Some e \<and>
          (\<forall>c\<in>set (take 8 (init_calls cfg 0)). env c = None) \<longrightarrow> res = Inl e)"
proof -
  let ?bind = "AddInsecurePort 0 (GRPC_HOST_LOCAL cfg @ '':'' @ GRPC_PORT cfg)"
  note f = Server_call_fresh [OF assms(2)]
  from f have pre: "trace p \<in> set (prefixes (init_calls cfg 0))"
    and ok: "\<forall>c\<in>set (trace p). env c = None"
    by simp_all
  from assms(1) have nb: "env ?bind \<noteq> None"
    by blast
  with ok have notin: "?bind \<notin> set (trace p)"
    by auto
  have "\<exists>e. res = Inl e"
  proof (cases res)
    case (Inr r)
    with f have "trace p = init_calls cfg 0"
      by simp
    with notin show ?thesis
      by (simp add: init_calls_def)
  qed simp
  then obtain e where e: "res = Inl e"
    by blast
  with f have flag: "\<not> hasattr_initialized 0 p"
    and len: "length (trace p) < 10"
    and raised: "env (init_calls cfg 0 ! length (trace p)) = Some e"
    by (auto simp: hasattr_initialized_def)
  from pre notin have obs:
    "bound_ports (trace p) = [] \<and> reflected (trace p) = [] \<and> started (trace p) = []"
    by (auto simp: init_calls_def)
  from e assms(2) have life: "lifespan_startup env cfg fresh_process = (Inl e, p)"
    by (simp add: lifespan_startup_def and_then_def)
  have exact: "res = Inl e'"
    if b: "env ?bind = Some e'" and before: "\<forall>c\<in>set (take 8 (init_calls cfg 0)). env c = None"
    for e'
  proof -
    from pre notin have "length (trace p) \<le> 8"
      by (auto simp: init_calls_def)
    moreover have "length (trace p) \<noteq> k" if "k < 8" for k
    proof
      assume "length (trace p) = k"
      with raised have "env (take 8 (init_calls cfg 0) ! k) = Some e"
        using that by simp
      moreover have "take 8 (init_calls cfg 0) ! k \<in> set (take 8 (init_calls cfg 0))"
        using that by (intro nth_mem) (simp add: init_calls_def)
      ultimately show False
        using before by auto
    qed
    ultimately have "length (trace p) = 8"
      by (metis le_neq_implies_less)
    with raised b e show ?thesis
      by (simp add: init_calls_def)
  qed
  from e life flag obs exact show ?thesis
    by blast
qed

theorem address_in_use_is_fatal_witness:
  "\<exists>p. Server_call address_in_use example_settings fresh_process =
       (Inl (Raised ''Failed to bind to address''), p) \<and>
     lifespan_startup address_in_use example_settings fresh_process =
       (Inl (Raised ''Failed to bind to address''), p) \<and>
     \<not> hasattr_initialized 0 p \<and> bound_ports (trace p) = [] \<and> started (trace p) = []"
proof -
  obtain res p where c: "Server_call address_in_use example_settings fresh_process = (res, p)"
    by (cases "Server_call address_in_use example_settings fresh_process")
  have h: "\<forall>s. address_in_use (AddInsecurePort s
      (GRPC_HOST_LOCAL example_settings @ '':'' @ GRPC_PORT example_settings)) \<noteq> None"
    by (simp add: address_in_use_def)
  note a = address_in_use_is_fatal [OF h c]
  have "address_in_use (AddInsecurePort 0
      (GRPC_HOST_LOCAL example_settings @ '':'' @ GRPC_PORT example_settings)) =
      Some (Raised ''Failed to bind to address'')"
    and "\<forall>c\<in>set (take 8 (init_calls example_settings 0)). address_in_use c = None"
    by (simp_all add: address_in_use_def init_calls_def)
  with a have "res = Inl (Raised ''Failed to bind to address'')"
    by blast
  with a c show ?thesis
    by auto
qed

section \<open>\<^verbatim>\<open>stop\<close> before \<^verbatim>\<open>run\<close>, and twice\<close>




end
